theory Spec2Isabelle
  imports Complex_Main "HOL-Library.Word" "HOL-Library.Sublist"
begin

section \<open>JavaScript strings\<close>

text \<open>
  A JavaScript string is a sequence of 16-bit code units. Literals of the source that are
  plain ASCII are written through \<open>ascii\<close>; the few non-ASCII characters of the source
  (\<open>U+00E3\<close>, \<open>U+00BA\<close>, \<open>U+2014\<close>, ...) are written as their code units.
\<close>

type_synonym code_unit = "16 word"
type_synonym jsstring = "code_unit list"

definition ascii :: "string \<Rightarrow> jsstring" where
  "ascii s = map (\<lambda>c. of_nat (of_char c)) s"

section \<open>The cart store (src/lib/cart.ts)\<close>

subsection \<open>Data\<close>

text \<open>
  \<open>CartItem\<close> is the source's type of the same name. The source also uses two of its
  projections as parameter types: \<open>Pick<CartItem, "sku" | "variantLabel">\<close> (the argument
  of \<open>keyOf\<close> and of \<open>removeCartItem\<close>) and \<open>{sku, variantLabel?, qty}\<close> (the argument
  of \<open>updateCartItem\<close>). They are the records \<open>CartKey\<close> and \<open>CartQty\<close>, which
  \<open>CartItem\<close> extends, so that one \<open>keyOf\<close> serves all three as in the source.
  An optional field is an \<open>option\<close>. \<open>qty\<close> is a JavaScript number; the model is about
  integer quantities and takes it as an \<open>int\<close>.
\<close>

record CartKey =
  sku :: jsstring
  variantLabel :: "jsstring option"

record CartQty = CartKey +
  qty :: int

record CartItem = CartQty +
  name :: jsstring
  photo :: "jsstring option"

text \<open>
  What the slot \<open>af_cart_v1\<close> of \<open>localStorage\<close> holds, when it holds a string, classified
  by what the source's reading code can observe of it: the empty string, a string that
  \<open>JSON.parse\<close> rejects, the JSON text of a value that is not an array, or the JSON text of
  an array of cart items. (The source casts the parsed array to \<open>CartItem[]\<close> without
  looking at its elements; an array of anything else has no counterpart here.)
\<close>

datatype raw = RawEmpty | RawMalformed | RawNonArray | RawArray "CartItem list"

datatype parsed = ParsedOther | ParsedArray "CartItem list"

datatype exn = StorageException | SyntaxError

text \<open>
  The browser as the module sees it: whether \<open>window\<close> exists at all (it does not on the
  server), whether reading or writing \<open>localStorage\<close> throws, the slot (\<open>None\<close> when
  \<open>getItem\<close> returns \<open>null\<close>), and how many \<open>af:cart-changed\<close> events were dispatched.
\<close>

record browser =
  has_window :: bool
  getItem_throws :: bool
  setItem_throws :: bool
  af_cart_v1 :: "raw option"
  dispatched :: nat

subsection \<open>Platform functions\<close>

definition localStorage_getItem :: "browser \<Rightarrow> exn + raw option" where
  "localStorage_getItem b = (if getItem_throws b then Inl StorageException else Inr (af_cart_v1 b))"

fun JSON_parse :: "raw \<Rightarrow> exn + parsed" where
  "JSON_parse RawEmpty = Inl SyntaxError"
| "JSON_parse RawMalformed = Inl SyntaxError"
| "JSON_parse RawNonArray = Inr ParsedOther"
| "JSON_parse (RawArray xs) = Inr (ParsedArray xs)"

definition JSON_stringify :: "CartItem list \<Rightarrow> raw" where
  "JSON_stringify items = RawArray items"

text \<open>\<open>!raw\<close>: \<open>null\<close> and the empty string are the falsy values a slot can hold.\<close>

fun falsy :: "raw option \<Rightarrow> bool" where
  "falsy None = True"
| "falsy (Some RawEmpty) = True"
| "falsy (Some _) = False"

text \<open>\<open>Array.prototype.findIndex\<close>: the index of the first match, \<open>-1\<close> when there is none.\<close>

fun findIndex :: "('a \<Rightarrow> bool) \<Rightarrow> 'a list \<Rightarrow> int" where
  "findIndex P [] = - 1"
| "findIndex P (x # xs) =
     (if P x then 0 else (let r = findIndex P xs in if r < 0 then - 1 else r + 1))"

subsection \<open>The module\<close>

definition emitCartChanged :: "browser \<Rightarrow> browser" where
  "emitCartChanged b = (if \<not> has_window b then b else b\<lparr>dispatched := Suc (dispatched b)\<rparr>)"

text \<open>The body of the \<open>try\<close> block of \<open>getCart\<close>; \<open>Inl\<close> is a thrown exception.\<close>

definition getCart_try :: "browser \<Rightarrow> exn + CartItem list" where
  "getCart_try b =
     (case localStorage_getItem b of
        Inl e \<Rightarrow> Inl e
      | Inr r \<Rightarrow>
          if falsy r then Inr []
          else (case JSON_parse (the r) of
                  Inl e \<Rightarrow> Inl e
                | Inr (ParsedArray xs) \<Rightarrow> Inr xs
                | Inr ParsedOther \<Rightarrow> Inr []))"

definition getCart :: "browser \<Rightarrow> CartItem list" where
  "getCart b =
     (if \<not> has_window b then []
      else (case getCart_try b of Inl e \<Rightarrow> [] | Inr xs \<Rightarrow> xs))"

definition setCart :: "CartItem list \<Rightarrow> browser \<Rightarrow> exn + browser" where
  "setCart items b =
     (if \<not> has_window b then Inr b
      else if setItem_throws b then Inl StorageException
      else Inr (emitCartChanged (b\<lparr>af_cart_v1 := Some (JSON_stringify items)\<rparr>)))"

definition keyOf :: "'a CartKey_scheme \<Rightarrow> jsstring" where
  "keyOf item =
     sku item @ ascii ''::'' @ (case variantLabel item of None \<Rightarrow> ascii ''default'' | Some v \<Rightarrow> v)"

text \<open>
  The branch of \<open>addToCart\<close> between reading and writing: \<open>items\<close> after the update in
  place or the \<open>push\<close>.
\<close>

definition addToCart_items :: "CartItem \<Rightarrow> CartItem list \<Rightarrow> CartItem list" where
  "addToCart_items input items =
     (let k = keyOf input;
          idx = findIndex (\<lambda>i. keyOf i = k) items
      in if idx \<ge> 0
         then (let current = items ! nat idx
               in items[nat idx := current\<lparr>qty := max 1 (qty current + max 1 (qty input))\<rparr>])
         else items @ [input\<lparr>qty := max 1 (qty input)\<rparr>])"

definition addToCart :: "CartItem \<Rightarrow> browser \<Rightarrow> exn + browser" where
  "addToCart input b = setCart (addToCart_items input (getCart b)) b"

definition updateCartItem :: "CartQty \<Rightarrow> browser \<Rightarrow> exn + browser" where
  "updateCartItem params b =
     (let items = getCart b;
          k = keyOf params;
          next = filter (\<lambda>i. qty i > 0)
                   (map (\<lambda>i. if keyOf i \<noteq> k then i else i\<lparr>qty := qty params\<rparr>) items)
      in setCart next b)"

definition removeCartItem :: "CartKey \<Rightarrow> browser \<Rightarrow> exn + browser" where
  "removeCartItem params b =
     (let items = getCart b;
          k = keyOf params
      in setCart (filter (\<lambda>i. keyOf i \<noteq> k) items) b)"

definition clearCart :: "browser \<Rightarrow> exn + browser" where
  "clearCart b = setCart [] b"

subsection \<open>Callers: one call after another, and reading the cart at the end\<close>

definition and_then :: "exn + browser \<Rightarrow> (browser \<Rightarrow> exn + browser) \<Rightarrow> exn + browser" where
  "and_then r f = (case r of Inl e \<Rightarrow> Inl e | Inr b \<Rightarrow> f b)"

definition cart_of :: "exn + browser \<Rightarrow> exn + CartItem list" where
  "cart_of r = (case r of Inl e \<Rightarrow> Inl e | Inr b \<Rightarrow> Inr (getCart b))"

text \<open>A browser whose storage works, and one that has never stored a cart.\<close>

definition storage_ok :: "browser \<Rightarrow> bool" where
  "storage_ok b \<longleftrightarrow> has_window b \<and> \<not> getItem_throws b \<and> \<not> setItem_throws b"

definition fresh_browser :: browser where
  "fresh_browser =
     \<lparr>has_window = True, getItem_throws = False, setItem_throws = False,
      af_cart_v1 = None, dispatched = 0\<rparr>"

text \<open>
  The storage invariant of the specification: no two stored lines share an identity key,
  and no stored line has a quantity of zero or less.
\<close>

definition cart_invariant :: "CartItem list \<Rightarrow> bool" where
  "cart_invariant items \<longleftrightarrow> distinct (map keyOf items) \<and> (\<forall>i \<in> set items. 0 < qty i)"

text \<open>
  The quantities stored under one identity key at the end of a run, in stored order (a
  single number when the storage invariant holds).
\<close>

definition stored_qty :: "jsstring \<Rightarrow> exn + browser \<Rightarrow> exn + int list" where
  "stored_qty k r =
     (case r of Inl e \<Rightarrow> Inl e
      | Inr b \<Rightarrow> Inr (map qty (filter (\<lambda>i. keyOf i = k) (getCart b))))"

text \<open>
  The inputs of the examples: product \<open>A\<close> in variant \<open>250g\<close> (the specification's
  scenario), product \<open>B\<close> with a variant label or none, and a browser whose slot already
  holds a cart.
\<close>

definition item_A :: "int \<Rightarrow> CartItem" where
  "item_A n =
     \<lparr>sku = ascii ''A'', variantLabel = Some (ascii ''250g''), qty = n,
      name = ascii ''Mix A'', photo = None\<rparr>"

definition item_B :: "jsstring option \<Rightarrow> int \<Rightarrow> CartItem" where
  "item_B v n = \<lparr>sku = ascii ''B'', variantLabel = v, qty = n, name = ascii ''Mix B'', photo = None\<rparr>"

definition browser_with :: "CartItem list \<Rightarrow> browser" where
  "browser_with items =
     \<lparr>has_window = True, getItem_throws = False, setItem_throws = False,
      af_cart_v1 = Some (RawArray items), dispatched = 0\<rparr>"


section \<open>Facts about the cart store\<close>

lemma getCart_fresh: "getCart fresh_browser = []"
  by (simp add: getCart_def getCart_try_def localStorage_getItem_def fresh_browser_def)

lemma storage_ok_fresh: "storage_ok fresh_browser"
  by (simp add: storage_ok_def fresh_browser_def)

lemma setCart_ok:
  assumes "storage_ok b"
  shows "\<exists>b'. setCart items b = Inr b' \<and> getCart b' = items \<and> storage_ok b'"
  using assms
  by (simp add: storage_ok_def setCart_def emitCartChanged_def getCart_def getCart_try_def
      localStorage_getItem_def JSON_stringify_def)

lemma setCart_Inr:
  assumes "setCart items b = Inr b'"
  shows "getCart b' = (if has_window b \<and> \<not> getItem_throws b then items else [])"
  using assms
  by (auto simp add: setCart_def emitCartChanged_def getCart_def getCart_try_def
      localStorage_getItem_def JSON_stringify_def split: if_splits)

lemma findIndex_ge: "- 1 \<le> findIndex P xs"
  by (induction xs) (auto simp add: Let_def)

lemma findIndex_none: "findIndex P xs < 0 \<longleftrightarrow> (\<forall>x \<in> set xs. \<not> P x)"
proof (induction xs)
  case Nil
  show ?case by simp
next
  case (Cons x xs)
  show ?case using Cons.IH findIndex_ge [of P xs] by (auto simp add: Let_def)
qed

lemma findIndex_split:
  assumes "0 \<le> findIndex P xs"
  shows "\<exists>pre cur post. xs = pre @ cur # post \<and> (\<forall>i \<in> set pre. \<not> P i) \<and> P cur
           \<and> nat (findIndex P xs) = length pre"
  using assms
proof (induction xs)
  case Nil
  then show ?case by simp
next
  case (Cons x xs)
  show ?case
  proof (cases "P x")
    case True
    then have "x # xs = [] @ x # xs \<and> (\<forall>i \<in> set []. \<not> P i) \<and> P x
        \<and> nat (findIndex P (x # xs)) = length ([] :: 'a list)"
      by simp
    then show ?thesis by blast
  next
    case False
    with Cons.prems have nonneg: "0 \<le> findIndex P xs"
      by (simp add: Let_def split: if_splits)
    from Cons.IH [OF nonneg] obtain pre cur post where
      s: "xs = pre @ cur # post" "\<forall>i \<in> set pre. \<not> P i" "P cur"
         "nat (findIndex P xs) = length pre"
      by blast
    from False nonneg s have "x # xs = (x # pre) @ cur # post \<and> (\<forall>i \<in> set (x # pre). \<not> P i)
        \<and> P cur \<and> nat (findIndex P (x # xs)) = length (x # pre)"
      by (simp add: Let_def nat_add_distrib)
    then show ?thesis by blast
  qed
qed

lemma addToCart_items_absent:
  assumes "\<forall>i \<in> set items. keyOf i \<noteq> keyOf input"
  shows "addToCart_items input items = items @ [input\<lparr>qty := max 1 (qty input)\<rparr>]"
proof -
  from assms have "findIndex (\<lambda>i. keyOf i = keyOf input) items < 0"
    by (simp add: findIndex_none)
  then show ?thesis by (simp add: addToCart_items_def Let_def)
qed

lemma addToCart_items_present:
  assumes "\<exists>i \<in> set items. keyOf i = keyOf input"
  shows "\<exists>pre cur post. items = pre @ cur # post \<and> (\<forall>i \<in> set pre. keyOf i \<noteq> keyOf input)
           \<and> keyOf cur = keyOf input
           \<and> addToCart_items input items
               = pre @ cur\<lparr>qty := max 1 (qty cur + max 1 (qty input))\<rparr> # post"
proof -
  let ?P = "\<lambda>i. keyOf i = keyOf input"
  from assms have "\<not> findIndex ?P items < 0"
    by (simp add: findIndex_none)
  then have nonneg: "0 \<le> findIndex ?P items" by simp
  from findIndex_split [OF nonneg] obtain pre cur post where
    s: "items = pre @ cur # post" "\<forall>i \<in> set pre. \<not> ?P i" "?P cur"
       "nat (findIndex ?P items) = length pre"
    by blast
  from nonneg s(4) have "addToCart_items input items
      = items[length pre := (items ! length pre)\<lparr>qty := max 1 (qty (items ! length pre) + max 1 (qty input))\<rparr>]"
    by (simp add: addToCart_items_def Let_def)
  also from s(1) have "\<dots> = pre @ cur\<lparr>qty := max 1 (qty cur + max 1 (qty input))\<rparr> # post"
    by simp
  finally show ?thesis using s by blast
qed

lemma keyOf_qty_update [simp]: "keyOf (i\<lparr>qty := q\<rparr>) = keyOf i"
  by (simp add: keyOf_def)

lemma keyOf_item_A: "keyOf (item_A n) = ascii ''A::250g''"
  by (simp add: keyOf_def item_A_def ascii_def)

lemma getCart_browser_with: "getCart (browser_with items) = items"
  by (simp add: getCart_def getCart_try_def localStorage_getItem_def browser_with_def)

lemma storage_ok_browser_with: "storage_ok (browser_with items)"
  by (simp add: storage_ok_def browser_with_def)

lemma cart_of_setCart:
  assumes "storage_ok b"
  shows "cart_of (setCart items b) = Inr items"
  using setCart_ok [OF assms, of items] by (auto simp add: cart_of_def)

lemma addToCart_ok:
  assumes "storage_ok b"
  shows "\<exists>b'. addToCart input b = Inr b' \<and> getCart b' = addToCart_items input (getCart b)
           \<and> storage_ok b'"
  using setCart_ok [OF assms] by (simp add: addToCart_def)

lemma addToCart_items_Nil:
  "addToCart_items input [] = [input\<lparr>qty := max 1 (qty input)\<rparr>]"
  by (simp add: addToCart_items_def)

lemma addToCart_items_Cons:
  "addToCart_items input (i # items) =
     (if keyOf i = keyOf input
      then i\<lparr>qty := max 1 (qty i + max 1 (qty input))\<rparr> # items
      else i # addToCart_items input items)"
proof (cases "keyOf i = keyOf input")
  case True
  then show ?thesis by (simp add: addToCart_items_def)
next
  case False
  let ?r = "findIndex (\<lambda>i. keyOf i = keyOf input) items"
  show ?thesis
  proof (cases "?r < 0")
    case True
    with False show ?thesis by (simp add: addToCart_items_def Let_def)
  next
    case nonneg: False
    then have "nat (?r + 1) = Suc (nat ?r)" by simp
    with False nonneg show ?thesis by (simp add: addToCart_items_def Let_def)
  qed
qed

lemma add_twice:
  assumes "storage_ok b"
  shows "cart_of (and_then (addToCart x b) (addToCart y))
           = Inr (addToCart_items y (addToCart_items x (getCart b)))"
proof -
  from addToCart_ok [OF assms] obtain b1 where
    b1: "addToCart x b = Inr b1" "getCart b1 = addToCart_items x (getCart b)" "storage_ok b1"
    by blast
  from addToCart_ok [OF b1(3)] obtain b2 where
    b2: "addToCart y b1 = Inr b2" "getCart b2 = addToCart_items y (getCart b1)"
    by blast
  from b1 b2 show ?thesis by (simp add: and_then_def cart_of_def)
qed

lemma add_once:
  assumes "storage_ok b"
  shows "cart_of (addToCart x b) = Inr (addToCart_items x (getCart b))"
  using cart_of_setCart [OF assms] by (simp add: addToCart_def)

subsection \<open>Adding to the cart\<close>

text \<open>
  Claim C1. In a browser whose storage works, \<open>addToCart\<close> returns, and the cart read
  afterwards is: when no stored line has the identity key of the input, the old cart followed
  by the input with quantity \<open>max 1 requested\<close>; when some stored line has it, the old cart
  with the quantity of the first such line replaced by
  \<open>max 1 (existing + max 1 requested)\<close> and nothing else changed. Starting from an empty
  cart, adding \<open>A\<close>/\<open>250g\<close> with quantity 1 and then with quantity 2 leaves exactly one
  line, with quantity 3.
\<close>

theorem addToCart_merges_by_sum:
  assumes ok: "storage_ok b"
  shows "\<exists>c. cart_of (addToCart input b) = Inr c
     \<and> ((\<forall>i \<in> set (getCart b). keyOf i \<noteq> keyOf input) \<longrightarrow>
           c = getCart b @ [input\<lparr>qty := max 1 (qty input)\<rparr>])
     \<and> ((\<exists>i \<in> set (getCart b). keyOf i = keyOf input) \<longrightarrow>
           (\<exists>pre cur post. getCart b = pre @ cur # post
              \<and> (\<forall>i \<in> set pre. keyOf i \<noteq> keyOf input) \<and> keyOf cur = keyOf input
              \<and> c = pre @ cur\<lparr>qty := max 1 (qty cur + max 1 (qty input))\<rparr> # post))
     \<and> (getCart b = [] \<longrightarrow>
           cart_of (and_then (addToCart (item_A 1) b) (addToCart (item_A 2))) = Inr [item_A 3])"
proof -
  let ?c = "addToCart_items input (getCart b)"
  have r: "cart_of (addToCart input b) = Inr ?c"
    by (rule add_once [OF ok])
  have absent: "(\<forall>i \<in> set (getCart b). keyOf i \<noteq> keyOf input) \<longrightarrow>
      ?c = getCart b @ [input\<lparr>qty := max 1 (qty input)\<rparr>]"
    using addToCart_items_absent [of "getCart b" input] by blast
  have present: "(\<exists>i \<in> set (getCart b). keyOf i = keyOf input) \<longrightarrow>
      (\<exists>pre cur post. getCart b = pre @ cur # post
         \<and> (\<forall>i \<in> set pre. keyOf i \<noteq> keyOf input) \<and> keyOf cur = keyOf input
         \<and> ?c = pre @ cur\<lparr>qty := max 1 (qty cur + max 1 (qty input))\<rparr> # post)"
    using addToCart_items_present [of "getCart b" input] by blast
  have "addToCart_items (item_A 2) (addToCart_items (item_A 1) []) = [item_A 3]"
    by (simp add: addToCart_items_Nil addToCart_items_Cons keyOf_item_A) (simp add: item_A_def)
  then have scenario: "getCart b = [] \<longrightarrow>
      cart_of (and_then (addToCart (item_A 1) b) (addToCart (item_A 2))) = Inr [item_A 3]"
    using add_twice [OF ok, of "item_A 1" "item_A 2"] by simp
  from r absent present scenario show ?thesis by blast
qed

theorem addToCart_merges_by_sum_witness:
  "storage_ok (browser_with [item_A 1])
   \<and> (\<exists>i \<in> set (getCart (browser_with [item_A 1])). keyOf i = keyOf (item_A 2))
   \<and> cart_of (addToCart (item_A 2) (browser_with [item_A 1])) = Inr [item_A 3]"
proof -
  let ?b = "browser_with [item_A 1]"
  have ok: "storage_ok ?b" by (rule storage_ok_browser_with)
  have present: "\<exists>i \<in> set (getCart ?b). keyOf i = keyOf (item_A 2)"
    by (simp add: getCart_browser_with keyOf_item_A)
  from addToCart_merges_by_sum [OF ok, of "item_A 2"] present obtain c pre cur post where
    c: "cart_of (addToCart (item_A 2) ?b) = Inr c"
       "getCart ?b = pre @ cur # post"
       "c = pre @ cur\<lparr>qty := max 1 (qty cur + max 1 (qty (item_A 2)))\<rparr> # post"
    by blast
  from c(2) have "pre = [] \<and> cur = item_A 1 \<and> post = []"
    by (simp add: getCart_browser_with Cons_eq_append_conv)
  with c(3) have "c = [item_A 3]" by (simp add: item_A_def)
  with c(1) ok present show ?thesis by simp
qed

subsection \<open>Adding twice and adding the sum\<close>

lemma add_twice_items:
  assumes "keyOf y = keyOf x" "keyOf z = keyOf x"
    "qty z = max 1 (qty x) + max 1 (qty y)"
    "\<forall>i \<in> set items. keyOf i = keyOf x \<longrightarrow> 0 \<le> qty i"
  shows "map qty (filter (\<lambda>i. keyOf i = keyOf x) (addToCart_items y (addToCart_items x items)))
       = map qty (filter (\<lambda>i. keyOf i = keyOf x) (addToCart_items z items))"
  using assms
proof (induction items)
  case Nil
  then show ?case by (simp add: addToCart_items_Nil addToCart_items_Cons)
next
  case (Cons i items)
  then show ?case by (auto simp add: addToCart_items_Cons)
qed

lemma stored_qty_once:
  assumes "storage_ok b"
  shows "stored_qty k (addToCart x b)
           = Inr (map qty (filter (\<lambda>i. keyOf i = k) (addToCart_items x (getCart b))))"
  using addToCart_ok [OF assms, of x] by (auto simp add: stored_qty_def)

lemma stored_qty_twice:
  assumes "storage_ok b"
  shows "stored_qty k (and_then (addToCart x b) (addToCart y))
           = Inr (map qty (filter (\<lambda>i. keyOf i = k)
                   (addToCart_items y (addToCart_items x (getCart b)))))"
  using add_twice [OF assms, of x y]
  by (auto simp add: stored_qty_def cart_of_def split: sum.splits)

text \<open>
  Claim C4, as the code has it. Each call floors its own requested quantity to 1 before it
  sums. So adding \<open>a\<close> and then \<open>b\<close> to an identity stores the same quantity as one add of
  \<open>max 1 a + max 1 b\<close>, which is one add of \<open>a + b\<close> when both \<open>a\<close> and \<open>b\<close> are at least 1.
  The cart it starts from may be any cart in which the line stored under that identity, if
  there is one, has no negative quantity (every cart the store has written is such a cart).
\<close>

theorem add_twice_is_add_sum:
  assumes "storage_ok b" "keyOf y = keyOf x" "keyOf z = keyOf x"
    "\<forall>i \<in> set (getCart b). keyOf i = keyOf x \<longrightarrow> 0 \<le> qty i"
  shows "(\<exists>qs. stored_qty (keyOf x) (and_then (addToCart x b) (addToCart y)) = Inr qs
            \<and> stored_qty (keyOf x) (addToCart (z\<lparr>qty := max 1 (qty x) + max 1 (qty y)\<rparr>) b) = Inr qs)
     \<and> (1 \<le> qty x \<and> 1 \<le> qty y \<longrightarrow>
          (\<exists>qs. stored_qty (keyOf x) (and_then (addToCart x b) (addToCart y)) = Inr qs
             \<and> stored_qty (keyOf x) (addToCart (z\<lparr>qty := qty x + qty y\<rparr>) b) = Inr qs))"
proof -
  let ?z = "z\<lparr>qty := max 1 (qty x) + max 1 (qty y)\<rparr>"
  have kz: "keyOf ?z = keyOf x" using assms(3) by simp
  have qz: "qty ?z = max 1 (qty x) + max 1 (qty y)" by simp
  have general: "stored_qty (keyOf x) (and_then (addToCart x b) (addToCart y))
      = stored_qty (keyOf x) (addToCart ?z b)"
    unfolding stored_qty_twice [OF assms(1)] stored_qty_once [OF assms(1)]
    using add_twice_items [OF assms(2) kz qz assms(4)] by simp
  have floored: "1 \<le> qty x \<and> 1 \<le> qty y \<longrightarrow> z\<lparr>qty := qty x + qty y\<rparr> = ?z"
    by (simp add: max_def)
  from general floored show ?thesis
    by (auto simp add: stored_qty_once [OF assms(1)])
qed

theorem add_twice_is_add_sum_witness:
  "storage_ok (browser_with [item_A 1]) \<and> keyOf (item_A 2) = keyOf (item_A 1)
   \<and> 1 \<le> qty (item_A 1) \<and> 1 \<le> qty (item_A 2)
   \<and> (item_A 0)\<lparr>qty := qty (item_A 1) + qty (item_A 2)\<rparr> = item_A 3
   \<and> stored_qty (keyOf (item_A 1))
        (and_then (addToCart (item_A 1) (browser_with [item_A 1])) (addToCart (item_A 2))) = Inr [4]
   \<and> stored_qty (keyOf (item_A 1)) (addToCart (item_A 3) (browser_with [item_A 1])) = Inr [4]"
proof -
  let ?b = "browser_with [item_A 1]"
  have ok: "storage_ok ?b" by (rule storage_ok_browser_with)
  have k2: "keyOf (item_A 2) = keyOf (item_A 1)" and k0: "keyOf (item_A 0) = keyOf (item_A 1)"
    by (simp_all add: keyOf_item_A)
  have q: "1 \<le> qty (item_A 1) \<and> 1 \<le> qty (item_A 2)"
    by (simp add: item_A_def)
  have z: "(item_A 0)\<lparr>qty := qty (item_A 1) + qty (item_A 2)\<rparr> = item_A 3"
    by (simp add: item_A_def)
  have st: "\<forall>i \<in> set (getCart ?b). keyOf i = keyOf (item_A 1) \<longrightarrow> 0 \<le> qty i"
    by (simp add: getCart_browser_with item_A_def)
  from add_twice_is_add_sum [OF ok k2 k0 st] q z obtain qs where
    qs: "stored_qty (keyOf (item_A 1)) (and_then (addToCart (item_A 1) ?b) (addToCart (item_A 2))) = Inr qs"
        "stored_qty (keyOf (item_A 1)) (addToCart (item_A 3) ?b) = Inr qs"
    by auto
  have "stored_qty (keyOf (item_A 1)) (addToCart (item_A 3) ?b) = Inr [4]"
    by (simp add: stored_qty_once [OF ok] getCart_browser_with addToCart_items_Cons keyOf_item_A)
       (simp add: item_A_def)
  with qs have "qs = [4]" by simp
  with qs ok k2 q z show ?thesis by simp
qed

theorem add_twice_is_add_sum_counterexample:
  "stored_qty (keyOf (item_A 0))
       (and_then (addToCart (item_A 0) fresh_browser) (addToCart (item_A 0))) = Inr [2]
   \<and> stored_qty (keyOf (item_A 0)) (addToCart (item_A (0 + 0)) fresh_browser) = Inr [1]"
  by (simp add: stored_qty_once [OF storage_ok_fresh] stored_qty_twice [OF storage_ok_fresh]
      getCart_fresh addToCart_items_Nil addToCart_items_Cons keyOf_item_A)
     (simp add: item_A_def)

subsection \<open>Updating a quantity\<close>

lemma update_items_addressed:
  "0 < q \<Longrightarrow> filter (\<lambda>i. keyOf i = k)
      (filter (\<lambda>i. qty i > 0) (map (\<lambda>i. if keyOf i \<noteq> k then i else i\<lparr>qty := q\<rparr>) xs))
    = map (\<lambda>i. i\<lparr>qty := q\<rparr>) (filter (\<lambda>i. keyOf i = k) xs)"
  by (induction xs) auto

lemma update_items_others:
  "filter (\<lambda>i. keyOf i \<noteq> k)
      (filter (\<lambda>i. qty i > 0) (map (\<lambda>i. if keyOf i \<noteq> k then i else i\<lparr>qty := q\<rparr>) xs))
    = filter (\<lambda>i. 0 < qty i) (filter (\<lambda>i. keyOf i \<noteq> k) xs)"
  by (induction xs) auto

lemma update_once:
  assumes "storage_ok b"
  shows "cart_of (updateCartItem params b)
           = Inr (filter (\<lambda>i. qty i > 0)
                   (map (\<lambda>i. if keyOf i \<noteq> keyOf params then i else i\<lparr>qty := qty params\<rparr>)
                      (getCart b)))"
  using cart_of_setCart [OF assms] by (simp add: updateCartItem_def Let_def)

lemma remove_once:
  assumes "storage_ok b"
  shows "cart_of (removeCartItem params b)
           = Inr (filter (\<lambda>i. keyOf i \<noteq> keyOf params) (getCart b))"
  using cart_of_setCart [OF assms] by (simp add: removeCartItem_def Let_def)

text \<open>
  Claim C6. In a browser whose storage works, \<open>updateCartItem\<close> returns, and in the cart
  read afterwards: with a new quantity of zero or less, no line has the addressed identity;
  with a positive new quantity, the lines of the addressed identity are the ones stored
  before, each with its quantity set to the new quantity (not to a sum). The lines of other
  identities are the ones stored before (those with a positive quantity, which is all of them
  under the storage invariant).
\<close>

theorem updateCartItem_replaces_or_removes:
  assumes "storage_ok b"
  shows "\<exists>c. cart_of (updateCartItem params b) = Inr c
     \<and> (qty params \<le> 0 \<longrightarrow> (\<forall>i \<in> set c. keyOf i \<noteq> keyOf params))
     \<and> (0 < qty params \<longrightarrow>
          filter (\<lambda>i. keyOf i = keyOf params) c
            = map (\<lambda>i. i\<lparr>qty := qty params\<rparr>) (filter (\<lambda>i. keyOf i = keyOf params) (getCart b)))
     \<and> filter (\<lambda>i. keyOf i \<noteq> keyOf params) c
            = filter (\<lambda>i. 0 < qty i) (filter (\<lambda>i. keyOf i \<noteq> keyOf params) (getCart b))"
proof -
  let ?k = "keyOf params"
  let ?next = "filter (\<lambda>i. qty i > 0)
                   (map (\<lambda>i. if keyOf i \<noteq> ?k then i else i\<lparr>qty := qty params\<rparr>) (getCart b))"
  have c: "cart_of (updateCartItem params b) = Inr ?next"
    by (rule update_once [OF assms])
  have 1: "qty params \<le> 0 \<longrightarrow> (\<forall>i \<in> set ?next. keyOf i \<noteq> ?k)"
    by auto
  have 2: "0 < qty params \<longrightarrow> filter (\<lambda>i. keyOf i = ?k) ?next
            = map (\<lambda>i. i\<lparr>qty := qty params\<rparr>) (filter (\<lambda>i. keyOf i = ?k) (getCart b))"
    using update_items_addressed [of "qty params" ?k "getCart b"] by blast
  have 3: "filter (\<lambda>i. keyOf i \<noteq> ?k) ?next
            = filter (\<lambda>i. 0 < qty i) (filter (\<lambda>i. keyOf i \<noteq> ?k) (getCart b))"
    by (rule update_items_others)
  from c 1 2 3 show ?thesis by blast
qed

theorem updateCartItem_replaces_or_removes_witness:
  "storage_ok (browser_with [item_A 2])
   \<and> (\<exists>c. cart_of (updateCartItem \<lparr>sku = ascii ''A'', variantLabel = Some (ascii ''250g''), qty = 5\<rparr>
               (browser_with [item_A 2])) = Inr c
          \<and> filter (\<lambda>i. keyOf i = ascii ''A::250g'') c = [item_A 5])
   \<and> (\<exists>c. cart_of (updateCartItem \<lparr>sku = ascii ''A'', variantLabel = Some (ascii ''250g''), qty = 0\<rparr>
               (browser_with [item_A 2])) = Inr c
          \<and> \<not> (\<exists>i \<in> set c. keyOf i = ascii ''A::250g''))"
proof -
  let ?b = "browser_with [item_A 2]"
  let ?p5 = "\<lparr>sku = ascii ''A'', variantLabel = Some (ascii ''250g''), qty = 5\<rparr>"
  let ?p0 = "\<lparr>sku = ascii ''A'', variantLabel = Some (ascii ''250g''), qty = 0\<rparr>"
  have ok: "storage_ok ?b" by (rule storage_ok_browser_with)
  have k5: "keyOf ?p5 = ascii ''A::250g''" and k0: "keyOf ?p0 = ascii ''A::250g''"
    by (simp_all add: keyOf_def ascii_def)
  have upd: "(item_A 2)\<lparr>qty := 5\<rparr> = item_A 5" by (simp add: item_A_def)
  from updateCartItem_replaces_or_removes [OF ok, of ?p5]
  have five: "\<exists>c. cart_of (updateCartItem ?p5 ?b) = Inr c
          \<and> filter (\<lambda>i. keyOf i = ascii ''A::250g'') c = [item_A 5]"
    by (simp add: k5 getCart_browser_with keyOf_item_A upd) blast
  from updateCartItem_replaces_or_removes [OF ok, of ?p0]
  have zero: "\<exists>c. cart_of (updateCartItem ?p0 ?b) = Inr c
          \<and> \<not> (\<exists>i \<in> set c. keyOf i = ascii ''A::250g'')"
    by (simp add: k0) blast
  from ok five zero show ?thesis by blast
qed

subsection \<open>The storage invariant\<close>

lemma distinct_map_filter_keyOf:
  "distinct (map f xs) \<Longrightarrow> distinct (map f (filter P xs))"
  by (induction xs) auto

lemma addToCart_items_invariant:
  assumes "cart_invariant items"
  shows "cart_invariant (addToCart_items input items)"
proof (cases "\<exists>i \<in> set items. keyOf i = keyOf input")
  case True
  from addToCart_items_present [OF True] obtain pre cur post where
    s: "items = pre @ cur # post"
       "addToCart_items input items = pre @ cur\<lparr>qty := max 1 (qty cur + max 1 (qty input))\<rparr> # post"
    by blast
  from assms s show ?thesis by (simp add: cart_invariant_def)
next
  case False
  then have "addToCart_items input items = items @ [input\<lparr>qty := max 1 (qty input)\<rparr>]"
    by (simp add: addToCart_items_absent)
  with assms False show ?thesis by (auto simp add: cart_invariant_def)
qed

lemma update_items_invariant:
  assumes "cart_invariant items"
  shows "cart_invariant (filter (\<lambda>i. qty i > 0)
           (map (\<lambda>i. if keyOf i \<noteq> k then i else i\<lparr>qty := q\<rparr>) items))"
proof -
  have "map keyOf (map (\<lambda>i. if keyOf i \<noteq> k then i else i\<lparr>qty := q\<rparr>) items) = map keyOf items"
    by (induction items) auto
  with assms have "distinct (map keyOf (map (\<lambda>i. if keyOf i \<noteq> k then i else i\<lparr>qty := q\<rparr>) items))"
    by (simp only: cart_invariant_def)
  then show ?thesis
    by (simp add: cart_invariant_def distinct_map_filter_keyOf del: map_map)
qed

lemma remove_items_invariant:
  assumes "cart_invariant items"
  shows "cart_invariant (filter (\<lambda>i. keyOf i \<noteq> k) items)"
  using assms by (simp add: cart_invariant_def distinct_map_filter_keyOf)

lemma cart_invariant_Nil: "cart_invariant []"
  by (simp add: cart_invariant_def)

lemma setCart_invariant:
  assumes "cart_invariant items" "setCart items b = Inr b'"
  shows "cart_invariant (getCart b')"
  using assms setCart_Inr [OF assms(2)] by (simp add: cart_invariant_Nil split: if_splits)

text \<open>
  Claim C7. From any state whose cart satisfies the storage invariant, the cart read after
  \<open>addToCart\<close>, \<open>updateCartItem\<close>, \<open>removeCartItem\<close> or \<open>clearCart\<close> satisfies it again: no
  two stored lines share an identity key, and no stored line has a quantity of zero or less.
  In a browser whose storage works each of the four returns such a state.
\<close>

theorem mutations_preserve_cart_invariant:
  assumes "cart_invariant (getCart b)"
  shows "(\<forall>b'. addToCart input b = Inr b' \<longrightarrow> cart_invariant (getCart b'))
     \<and> (\<forall>b'. updateCartItem params b = Inr b' \<longrightarrow> cart_invariant (getCart b'))
     \<and> (\<forall>b'. removeCartItem key b = Inr b' \<longrightarrow> cart_invariant (getCart b'))
     \<and> (\<forall>b'. clearCart b = Inr b' \<longrightarrow> cart_invariant (getCart b'))
     \<and> (storage_ok b \<longrightarrow>
          (\<exists>b1 b2 b3 b4. addToCart input b = Inr b1 \<and> updateCartItem params b = Inr b2
             \<and> removeCartItem key b = Inr b3 \<and> clearCart b = Inr b4))"
proof -
  have a: "\<forall>b'. addToCart input b = Inr b' \<longrightarrow> cart_invariant (getCart b')"
    using setCart_invariant [OF addToCart_items_invariant [OF assms]]
    by (simp add: addToCart_def)
  have u: "\<forall>b'. updateCartItem params b = Inr b' \<longrightarrow> cart_invariant (getCart b')"
    using setCart_invariant [OF update_items_invariant [OF assms]]
    by (simp add: updateCartItem_def Let_def)
  have r: "\<forall>b'. removeCartItem key b = Inr b' \<longrightarrow> cart_invariant (getCart b')"
    using setCart_invariant [OF remove_items_invariant [OF assms]]
    by (simp add: removeCartItem_def Let_def)
  have c: "\<forall>b'. clearCart b = Inr b' \<longrightarrow> cart_invariant (getCart b')"
    using setCart_invariant [OF cart_invariant_Nil]
    by (simp add: clearCart_def)
  have t: "storage_ok b \<longrightarrow>
          (\<exists>b1 b2 b3 b4. addToCart input b = Inr b1 \<and> updateCartItem params b = Inr b2
             \<and> removeCartItem key b = Inr b3 \<and> clearCart b = Inr b4)"
    by (simp add: storage_ok_def addToCart_def updateCartItem_def removeCartItem_def
        clearCart_def setCart_def Let_def)
  from a u r c t show ?thesis by blast
qed

theorem mutations_preserve_cart_invariant_witness:
  "cart_invariant (getCart (browser_with [item_A 1])) \<and> storage_ok (browser_with [item_A 1])
   \<and> (\<exists>b1. addToCart (item_A 2) (browser_with [item_A 1]) = Inr b1 \<and> cart_invariant (getCart b1))
   \<and> (\<exists>b2. updateCartItem \<lparr>sku = ascii ''A'', variantLabel = Some (ascii ''250g''), qty = 0\<rparr>
              (browser_with [item_A 1]) = Inr b2 \<and> cart_invariant (getCart b2))
   \<and> (\<exists>b3. removeCartItem \<lparr>sku = ascii ''A'', variantLabel = Some (ascii ''250g'')\<rparr>
              (browser_with [item_A 1]) = Inr b3 \<and> cart_invariant (getCart b3))
   \<and> (\<exists>b4. clearCart (browser_with [item_A 1]) = Inr b4 \<and> cart_invariant (getCart b4))"
proof -
  let ?b = "browser_with [item_A 1]"
  have inv: "cart_invariant (getCart ?b)"
    by (simp add: getCart_browser_with cart_invariant_def) (simp add: item_A_def)
  have ok: "storage_ok ?b" by (rule storage_ok_browser_with)
  from mutations_preserve_cart_invariant [OF inv,
      of "item_A 2" "\<lparr>sku = ascii ''A'', variantLabel = Some (ascii ''250g''), qty = 0\<rparr>"
         "\<lparr>sku = ascii ''A'', variantLabel = Some (ascii ''250g'')\<rparr>"] ok inv
  show ?thesis by blast
qed

subsection \<open>Reading the cart\<close>

text \<open>
  Claim C8. \<open>getCart\<close> returns the stored list as it is when the slot holds the JSON text of
  an array and can be read, and the empty list when there is no \<open>window\<close>, when reading
  throws, when the slot holds nothing or the empty string, when its content does not parse,
  and when it parses to something that is not an array. \<open>getCart\<close> itself never throws: the
  exceptions of the \<open>try\<close> block (a failed read, a failed parse) all end in the empty list.
\<close>

theorem getCart_verbatim_or_empty:
  "(has_window b \<and> \<not> getItem_throws b \<and> af_cart_v1 b = Some (RawArray xs) \<longrightarrow> getCart b = xs)
   \<and> (\<not> has_window b \<longrightarrow> getCart b = [])
   \<and> (getItem_throws b \<longrightarrow> getCart b = [])
   \<and> (af_cart_v1 b = None \<longrightarrow> getCart b = [])
   \<and> (af_cart_v1 b = Some RawEmpty \<longrightarrow> getCart b = [])
   \<and> (af_cart_v1 b = Some RawMalformed \<longrightarrow> getCart b = [])
   \<and> (af_cart_v1 b = Some RawNonArray \<longrightarrow> getCart b = [])
   \<and> ((\<exists>e. getCart_try b = Inl e) \<longrightarrow> getCart b = [])
   \<and> (getItem_throws b \<longrightarrow> getCart_try b = Inl StorageException)
   \<and> (\<not> getItem_throws b \<and> af_cart_v1 b = Some RawMalformed \<longrightarrow> getCart_try b = Inl SyntaxError)"
  by (auto simp add: getCart_def getCart_try_def localStorage_getItem_def)

theorem getCart_verbatim_or_empty_witness:
  "getCart (browser_with [item_A 1, item_A 2]) = [item_A 1, item_A 2]
   \<and> getCart_try (fresh_browser\<lparr>af_cart_v1 := Some RawMalformed\<rparr>) = Inl SyntaxError
   \<and> getCart (fresh_browser\<lparr>af_cart_v1 := Some RawMalformed\<rparr>) = []
   \<and> getCart (fresh_browser\<lparr>af_cart_v1 := Some RawNonArray\<rparr>) = []
   \<and> getCart ((browser_with [item_A 1])\<lparr>getItem_throws := True\<rparr>) = []"
  using getCart_verbatim_or_empty [of "browser_with [item_A 1, item_A 2]" "[item_A 1, item_A 2]"]
    getCart_verbatim_or_empty [of "fresh_browser\<lparr>af_cart_v1 := Some RawMalformed\<rparr>"]
    getCart_verbatim_or_empty [of "fresh_browser\<lparr>af_cart_v1 := Some RawNonArray\<rparr>"]
    getCart_verbatim_or_empty [of "(browser_with [item_A 1])\<lparr>getItem_throws := True\<rparr>"]
  by (simp add: browser_with_def fresh_browser_def)

subsection \<open>The default sentinel\<close>

lemma keyOf_absent: "variantLabel i = None \<Longrightarrow> keyOf i = sku i @ ascii ''::default''"
  by (simp add: keyOf_def ascii_def)

lemma keyOf_default:
  "variantLabel i = Some (ascii ''default'') \<Longrightarrow> keyOf i = sku i @ ascii ''::default''"
  by (simp add: keyOf_def ascii_def)

lemma addToCart_items_same_key:
  assumes "keyOf y = keyOf x" "qty y = qty x" "\<exists>i \<in> set items. keyOf i = keyOf x"
  shows "addToCart_items y items = addToCart_items x items"
  using assms by (induction items) (auto simp add: addToCart_items_Cons)

lemma updateCartItem_same_key:
  assumes "keyOf p' = keyOf p" "qty p' = qty p"
  shows "updateCartItem p' b = updateCartItem p b"
  unfolding updateCartItem_def assms by (rule refl)

lemma update_one_line:
  assumes "storage_ok b" "getCart b = [l]" "keyOf p = keyOf l" "qty p = n"
  shows "cart_of (updateCartItem p b) = Inr (if 0 < n then [l\<lparr>qty := n\<rparr>] else [])"
proof -
  have "cart_of (updateCartItem p b)
      = Inr (filter (\<lambda>i. qty i > 0)
               (map (\<lambda>i. if keyOf i \<noteq> keyOf l then i else i\<lparr>qty := n\<rparr>) [l]))"
    unfolding update_once [OF assms(1)] assms(2-4) by (rule refl)
  then show ?thesis by simp
qed

text \<open>
  Claim C10. An item without a variant label and an item whose variant label is the string
  \<open>default\<close> have the same identity key, \<open>sku::default\<close>. So \<open>updateCartItem\<close> and
  \<open>removeCartItem\<close> do the same whichever of the two forms addresses the line, and so does
  \<open>addToCart\<close> whenever the cart holds a line of that key (it merges into it). In
  particular, on a cart whose only line was stored without a variant label, the three
  operations addressed with the label \<open>default\<close> merge into, update and remove that line;
  and the same the other way round.
\<close>

theorem absent_label_and_default_share_key:
  "keyOf \<lparr>sku = s, variantLabel = None\<rparr> = s @ ascii ''::default''
   \<and> keyOf \<lparr>sku = s, variantLabel = Some (ascii ''default'')\<rparr> = s @ ascii ''::default''
   \<and> updateCartItem \<lparr>sku = s, variantLabel = Some (ascii ''default''), qty = n\<rparr> b
       = updateCartItem \<lparr>sku = s, variantLabel = None, qty = n\<rparr> b
   \<and> removeCartItem \<lparr>sku = s, variantLabel = Some (ascii ''default'')\<rparr> b
       = removeCartItem \<lparr>sku = s, variantLabel = None\<rparr> b
   \<and> ((\<exists>i \<in> set (getCart b). keyOf i = s @ ascii ''::default'') \<longrightarrow>
        addToCart \<lparr>sku = s, variantLabel = Some (ascii ''default''), qty = n, name = nm, photo = ph\<rparr> b
          = addToCart \<lparr>sku = s, variantLabel = None, qty = n, name = nm, photo = ph\<rparr> b)
   \<and> (storage_ok b \<and> getCart b = [l] \<and> sku l = s
        \<and> (variantLabel l = None \<or> variantLabel l = Some (ascii ''default'')) \<longrightarrow>
        (\<forall>v \<in> {None, Some (ascii ''default'')}.
           cart_of (addToCart \<lparr>sku = s, variantLabel = v, qty = n, name = nm, photo = ph\<rparr> b)
             = Inr [l\<lparr>qty := max 1 (qty l + max 1 n)\<rparr>]
           \<and> cart_of (updateCartItem \<lparr>sku = s, variantLabel = v, qty = n\<rparr> b)
             = Inr (if 0 < n then [l\<lparr>qty := n\<rparr>] else [])
           \<and> cart_of (removeCartItem \<lparr>sku = s, variantLabel = v\<rparr> b) = Inr []))"
proof -
  let ?k = "s @ ascii ''::default''"
  let ?xn = "\<lparr>sku = s, variantLabel = None, qty = n, name = nm, photo = ph\<rparr>"
  let ?xd = "\<lparr>sku = s, variantLabel = Some (ascii ''default''), qty = n, name = nm, photo = ph\<rparr>"
  have k1: "keyOf \<lparr>sku = s, variantLabel = None\<rparr> = ?k"
    and k2: "keyOf \<lparr>sku = s, variantLabel = Some (ascii ''default'')\<rparr> = ?k"
    and k3: "keyOf \<lparr>sku = s, variantLabel = None, qty = n\<rparr> = ?k"
    and k4: "keyOf \<lparr>sku = s, variantLabel = Some (ascii ''default''), qty = n\<rparr> = ?k"
    and k5: "keyOf ?xn = ?k" and k6: "keyOf ?xd = ?k"
    by (simp_all add: keyOf_absent keyOf_default)
  have upd: "updateCartItem \<lparr>sku = s, variantLabel = Some (ascii ''default''), qty = n\<rparr> b
       = updateCartItem \<lparr>sku = s, variantLabel = None, qty = n\<rparr> b"
    by (rule updateCartItem_same_key) (simp_all add: k3 k4)
  have rem: "removeCartItem \<lparr>sku = s, variantLabel = Some (ascii ''default'')\<rparr> b
       = removeCartItem \<lparr>sku = s, variantLabel = None\<rparr> b"
    by (simp add: removeCartItem_def k1 k2)
  have add: "(\<exists>i \<in> set (getCart b). keyOf i = ?k) \<longrightarrow> addToCart ?xd b = addToCart ?xn b"
  proof
    assume "\<exists>i \<in> set (getCart b). keyOf i = ?k"
    then have "\<exists>i \<in> set (getCart b). keyOf i = keyOf ?xn" by (simp only: k5)
    then have "addToCart_items ?xd (getCart b) = addToCart_items ?xn (getCart b)"
      by (intro addToCart_items_same_key) (simp_all add: k5 k6)
    then show "addToCart ?xd b = addToCart ?xn b" by (simp add: addToCart_def)
  qed
  have one: "storage_ok b \<and> getCart b = [l] \<and> sku l = s
        \<and> (variantLabel l = None \<or> variantLabel l = Some (ascii ''default'')) \<longrightarrow>
        (\<forall>v \<in> {None, Some (ascii ''default'')}.
           cart_of (addToCart \<lparr>sku = s, variantLabel = v, qty = n, name = nm, photo = ph\<rparr> b)
             = Inr [l\<lparr>qty := max 1 (qty l + max 1 n)\<rparr>]
           \<and> cart_of (updateCartItem \<lparr>sku = s, variantLabel = v, qty = n\<rparr> b)
             = Inr (if 0 < n then [l\<lparr>qty := n\<rparr>] else [])
           \<and> cart_of (removeCartItem \<lparr>sku = s, variantLabel = v\<rparr> b) = Inr [])"
  proof (intro impI)
    assume a: "storage_ok b \<and> getCart b = [l] \<and> sku l = s
        \<and> (variantLabel l = None \<or> variantLabel l = Some (ascii ''default''))"
    then have ok: "storage_ok b" and c: "getCart b = [l]" by simp_all
    from a have kl: "keyOf l = ?k" using keyOf_absent [of l] keyOf_default [of l] by blast
    show "\<forall>v \<in> {None, Some (ascii ''default'')}.
           cart_of (addToCart \<lparr>sku = s, variantLabel = v, qty = n, name = nm, photo = ph\<rparr> b)
             = Inr [l\<lparr>qty := max 1 (qty l + max 1 n)\<rparr>]
           \<and> cart_of (updateCartItem \<lparr>sku = s, variantLabel = v, qty = n\<rparr> b)
             = Inr (if 0 < n then [l\<lparr>qty := n\<rparr>] else [])
           \<and> cart_of (removeCartItem \<lparr>sku = s, variantLabel = v\<rparr> b) = Inr []"
      by (simp add: add_once [OF ok] update_one_line [OF ok c] remove_once [OF ok] c kl
          addToCart_items_Cons k1 k2 k3 k4 k5 k6)
  qed
  from k1 k2 upd rem add one show ?thesis by blast
qed

theorem absent_label_and_default_share_key_witness:
  "storage_ok (browser_with [item_B None 1])
   \<and> cart_of (addToCart (item_B (Some (ascii ''default'')) 2) (browser_with [item_B None 1]))
       = Inr [item_B None 3]
   \<and> cart_of (updateCartItem \<lparr>sku = ascii ''B'', variantLabel = Some (ascii ''default''), qty = 7\<rparr>
         (browser_with [item_B None 1])) = Inr [item_B None 7]
   \<and> cart_of (removeCartItem \<lparr>sku = ascii ''B'', variantLabel = Some (ascii ''default'')\<rparr>
         (browser_with [item_B None 1])) = Inr []
   \<and> cart_of (addToCart (item_B None 2) (browser_with [item_B (Some (ascii ''default'')) 1]))
       = Inr [item_B (Some (ascii ''default'')) 3]"
proof -
  let ?d = "Some (ascii ''default'')"
  have ok: "\<And>v. storage_ok (browser_with [item_B v 1])" by (rule storage_ok_browser_with)
  have g: "\<And>v. getCart (browser_with [item_B v 1]) = [item_B v 1]" by (rule getCart_browser_with)
  have s: "\<And>v. sku (item_B v 1) = ascii ''B''" and v: "\<And>v. variantLabel (item_B v 1) = v"
    by (simp_all add: item_B_def)
  have "?d \<in> {None, ?d}" and "None \<in> {None, ?d}" by simp_all
  with absent_label_and_default_share_key
         [of "ascii ''B''" 2 "browser_with [item_B None 1]" "ascii ''Mix B''" None "item_B None 1"]
       absent_label_and_default_share_key
         [of "ascii ''B''" 7 "browser_with [item_B None 1]" "ascii ''Mix B''" None "item_B None 1"]
       absent_label_and_default_share_key
         [of "ascii ''B''" 2 "browser_with [item_B ?d 1]" "ascii ''Mix B''" None "item_B ?d 1"]
       ok g s v
  show ?thesis by (simp add: item_B_def)
qed

section \<open>String functions of the platform\<close>

text \<open>
  \<open>typeof input === "string"\<close> is a case distinction on a value of unknown type.
\<close>

datatype unknown = Str jsstring | NotString

text \<open>
  \<open>String.prototype.trim\<close> removes the code units that ECMAScript calls white space or line
  terminators from both ends.
\<close>

definition is_whitespace :: "code_unit \<Rightarrow> bool" where
  "is_whitespace u \<longleftrightarrow>
     u \<in> {0x9, 0xA, 0xB, 0xC, 0xD, 0x20, 0xA0, 0x1680, 0x2028, 0x2029, 0x202F, 0x205F, 0x3000, 0xFEFF}
     \<or> (0x2000 \<le> u \<and> u \<le> 0x200A)"

definition trim :: "jsstring \<Rightarrow> jsstring" where
  "trim s = rev (dropWhile is_whitespace (rev (dropWhile is_whitespace s)))"

text \<open>
  \<open>String.prototype.toLowerCase\<close>, tabulated for the code units below \<open>0x100\<close> (ASCII and
  Latin-1, where it maps one code unit to one code unit); code units from \<open>0x100\<close> on are
  left as they are.
\<close>

definition lower_unit :: "code_unit \<Rightarrow> code_unit" where
  "lower_unit u =
     (if (0x41 \<le> u \<and> u \<le> 0x5A) \<or> (0xC0 \<le> u \<and> u \<le> 0xDE \<and> u \<noteq> 0xD7) then u + 0x20 else u)"

definition toLowerCase :: "jsstring \<Rightarrow> jsstring" where
  "toLowerCase s = map lower_unit s"



section \<open>The catalogue page (src/app/catalogo/page.tsx)\<close>

text \<open>
  The product as \<open>/api/products\<close> returns it (the page's type adds the optional
  \<open>shopee_url\<close> to the one of \<open>src/lib/db/products.ts\<close>). Field names that the cart's
  records already use carry the suffix \<open>_cp\<close>, those of a variant \<open>_cv\<close>.
\<close>

datatype Status = ENCOMENDA

record CatalogVariant =
  id_cv :: jsstring
  label_cv :: jsstring
  status_cv :: Status

record CatalogProduct =
  id_cp :: jsstring
  slug :: jsstring
  name_cp :: jsstring
  description_cp :: jsstring
  images :: "jsstring list"
  status_cp :: Status
  category_cp :: jsstring
  variants :: "CatalogVariant list"
  shopee_url :: "jsstring option"









section \<open>Facts about the catalogue page\<close>










section \<open>Slug normalisation (catalogue page and product page)\<close>

subsection \<open>\<open>decodeURIComponent\<close>\<close>

text \<open>
  The \<open>Decode\<close> operation of ECMAScript with an empty set of preserved escapes. A
  \<open>%\<close> must be followed by two hexadecimal digits. An octet below \<open>0x80\<close> is the code unit
  itself; an octet that opens a UTF-8 sequence of two to four octets must be followed by that
  many escaped continuation octets, and the octets must be the UTF-8 encoding of a code
  point, which is appended in UTF-16. Everything else throws \<open>URIError\<close>.
\<close>

datatype uri_error = URIError

definition hex_value :: "code_unit \<Rightarrow> nat option" where
  "hex_value u =
     (if 0x30 \<le> u \<and> u \<le> 0x39 then Some (unat u - 0x30)
      else if 0x41 \<le> u \<and> u \<le> 0x46 then Some (unat u - 0x41 + 10)
      else if 0x61 \<le> u \<and> u \<le> 0x66 then Some (unat u - 0x61 + 10)
      else None)"

fun escaped_octet :: "jsstring \<Rightarrow> (nat \<times> jsstring) option" where
  "escaped_octet (p # h # l # rest) =
     (if p = 0x25
      then (case hex_value h of
              None \<Rightarrow> None
            | Some a \<Rightarrow> (case hex_value l of None \<Rightarrow> None | Some b \<Rightarrow> Some (16 * a + b, rest)))
      else None)"
| "escaped_octet _ = None"

fun escaped_octets :: "nat \<Rightarrow> jsstring \<Rightarrow> (nat list \<times> jsstring) option" where
  "escaped_octets 0 s = Some ([], s)"
| "escaped_octets (Suc n) s =
     (case escaped_octet s of
        None \<Rightarrow> None
      | Some (b, rest) \<Rightarrow>
          (case escaped_octets n rest of
             None \<Rightarrow> None
           | Some (bs, rest') \<Rightarrow> Some (b # bs, rest')))"

definition leading_ones :: "nat \<Rightarrow> nat" where
  "leading_ones b =
     (if b < 0x80 then 0 else if b < 0xC0 then 1 else if b < 0xE0 then 2
      else if b < 0xF0 then 3 else if b < 0xF8 then 4 else 5)"

definition continuation :: "nat \<Rightarrow> bool" where
  "continuation b \<longleftrightarrow> 0x80 \<le> b \<and> b \<le> 0xBF"

text \<open>The well-formed UTF-8 sequences of two to four octets, and the code point of each.\<close>

fun utf8_code_point :: "nat list \<Rightarrow> nat option" where
  "utf8_code_point [b0, b1] =
     (if 0xC2 \<le> b0 \<and> b0 \<le> 0xDF \<and> continuation b1
      then Some ((b0 - 0xC0) * 64 + (b1 - 0x80)) else None)"
| "utf8_code_point [b0, b1, b2] =
     (if 0xE0 \<le> b0 \<and> b0 \<le> 0xEF \<and> continuation b1 \<and> continuation b2
         \<and> (if b0 = 0xE0 then 0xA0 \<le> b1 else True) \<and> (if b0 = 0xED then b1 \<le> 0x9F else True)
      then Some ((b0 - 0xE0) * 4096 + (b1 - 0x80) * 64 + (b2 - 0x80)) else None)"
| "utf8_code_point [b0, b1, b2, b3] =
     (if 0xF0 \<le> b0 \<and> b0 \<le> 0xF4 \<and> continuation b1 \<and> continuation b2 \<and> continuation b3
         \<and> (if b0 = 0xF0 then 0x90 \<le> b1 else True) \<and> (if b0 = 0xF4 then b1 \<le> 0x8F else True)
      then Some ((b0 - 0xF0) * 262144 + (b1 - 0x80) * 4096 + (b2 - 0x80) * 64 + (b3 - 0x80))
      else None)"
| "utf8_code_point _ = None"

definition UTF16EncodeCodePoint :: "nat \<Rightarrow> jsstring" where
  "UTF16EncodeCodePoint v =
     (if v \<le> 0xFFFF then [of_nat v]
      else [of_nat (0xD800 + (v - 0x10000) div 1024), of_nat (0xDC00 + (v - 0x10000) mod 1024)])"

lemma escaped_octet_shorter:
  "escaped_octet s = Some (b, rest) \<Longrightarrow> length rest < length s"
  by (induction s rule: escaped_octet.induct) (auto split: if_splits option.splits)

lemma escaped_octets_shorter:
  "escaped_octets n s = Some (bs, rest) \<Longrightarrow> length rest \<le> length s"
proof (induction n arbitrary: s bs rest)
  case 0
  then show ?case by simp
next
  case (Suc n)
  then show ?case
    by (fastforce split: option.splits dest: escaped_octet_shorter)
qed

function decodeURIComponent :: "jsstring \<Rightarrow> uri_error + jsstring" where
  "decodeURIComponent [] = Inr []"
| "decodeURIComponent (c # cs) =
     (if c \<noteq> 0x25
      then (case decodeURIComponent cs of Inl e \<Rightarrow> Inl e | Inr r \<Rightarrow> Inr (c # r))
      else (case escaped_octet (c # cs) of
              None \<Rightarrow> Inl URIError
            | Some (b, rest) \<Rightarrow>
                if leading_ones b = 0
                then (case decodeURIComponent rest of
                        Inl e \<Rightarrow> Inl e
                      | Inr r \<Rightarrow> Inr (of_nat b # r))
                else if leading_ones b = 1 \<or> leading_ones b > 4 then Inl URIError
                else (case escaped_octets (leading_ones b - 1) rest of
                        None \<Rightarrow> Inl URIError
                      | Some (bs, rest') \<Rightarrow>
                          (case utf8_code_point (b # bs) of
                             None \<Rightarrow> Inl URIError
                           | Some v \<Rightarrow>
                               (case decodeURIComponent rest' of
                                  Inl e \<Rightarrow> Inl e
                                | Inr r \<Rightarrow> Inr (UTF16EncodeCodePoint v @ r))))))"
  by pat_completeness auto
termination
proof (relation "measure length")
  show "wf (measure length)" by simp
next
  fix c :: code_unit and cs
  show "(cs, c # cs) \<in> measure length" by simp
next
  fix c :: code_unit and cs x2 x y
  assume "escaped_octet (c # cs) = Some x2" "(x, y) = x2"
  then show "(y, c # cs) \<in> measure length"
    using escaped_octet_shorter [of "c # cs" x y] by simp
next
  fix c :: code_unit and cs x2 x y x2a xa ya x2b
  assume "escaped_octet (c # cs) = Some x2" "(x, y) = x2"
    "escaped_octets (leading_ones x - 1) y = Some x2a" "(xa, ya) = x2a"
  then show "(ya, c # cs) \<in> measure length"
    using escaped_octet_shorter [of "c # cs" x y]
      escaped_octets_shorter [of "leading_ones x - 1" y xa ya] by simp
qed

subsection \<open>\<open>normalizeSlug\<close>\<close>

text \<open>\<open>s.split(sep)[0]\<close> for a separator of one code unit: what precedes its first occurrence.\<close>

definition split_first :: "code_unit \<Rightarrow> jsstring \<Rightarrow> jsstring" where
  "split_first sep s = takeWhile (\<lambda>u. u \<noteq> sep) s"

text \<open>
  The function is written twice in the source, with the same body: in
  \<open>src/app/catalogo/page.tsx\<close> and in \<open>src/app/produto/[slug]/produto-client.tsx\<close>.
  What it does twice in a row depends on properties of the platform's case mapping, so the
  body is written over any case mapping \<open>lower\<close> first; \<open>normalizeSlug\<close> is that body
  over \<open>toLowerCase\<close>.
\<close>

definition normalizeSlug_with :: "(jsstring \<Rightarrow> jsstring) \<Rightarrow> unknown \<Rightarrow> jsstring" where
  "normalizeSlug_with lower input =
     (case input of
        NotString \<Rightarrow> []
      | Str s \<Rightarrow>
          (let noQuery = split_first 0x23 (split_first 0x3F s)
           in case decodeURIComponent noQuery of
                Inr decoded \<Rightarrow> lower (trim decoded)
              | Inl e \<Rightarrow> lower (trim noQuery)))"

definition normalizeSlug :: "unknown \<Rightarrow> jsstring" where
  "normalizeSlug = normalizeSlug_with toLowerCase"

section \<open>Facts about slug normalisation\<close>

lemma unat_plus_32: "u \<le> (0xDE :: 16 word) \<Longrightarrow> unat (u + 0x20) = unat u + 0x20"
  by (simp add: word_le_nat_alt unat_add_lem [THEN iffD1])

lemma lower_unit_unat:
  "unat (lower_unit u) =
     (if (0x41 \<le> unat u \<and> unat u \<le> 0x5A) \<or> (0xC0 \<le> unat u \<and> unat u \<le> 0xDE \<and> unat u \<noteq> 0xD7)
      then unat u + 0x20 else unat u)"
proof (cases "u \<le> 0xDE")
  case True
  then show ?thesis
    by (simp add: lower_unit_def unat_plus_32 word_le_nat_alt word_unat_eq_iff)
next
  case False
  then show ?thesis by (auto simp add: lower_unit_def word_le_nat_alt)
qed

lemma is_whitespace_unat:
  "is_whitespace u \<longleftrightarrow>
     unat u \<in> {0x9, 0xA, 0xB, 0xC, 0xD, 0x20, 0xA0, 0x1680, 0x2028, 0x2029, 0x202F, 0x205F, 0x3000, 0xFEFF}
     \<or> (0x2000 \<le> unat u \<and> unat u \<le> 0x200A)"
  by (simp add: is_whitespace_def word_le_nat_alt word_unat_eq_iff)

lemma lower_unit_idem: "lower_unit (lower_unit u) = lower_unit u"
  by (rule word_unat_eq_iff [THEN iffD2]) (simp add: lower_unit_unat)

lemma is_whitespace_lower_unit: "is_whitespace (lower_unit u) = is_whitespace u"
  by (simp add: is_whitespace_unat lower_unit_unat)


lemma dropWhile_last:
  assumes "dropWhile P ys \<noteq> []"
  shows "last (dropWhile P ys) = last ys"
proof -
  have "ys = takeWhile P ys @ dropWhile P ys" by simp
  then have "last ys = last (takeWhile P ys @ dropWhile P ys)" by simp
  also from assms have "\<dots> = last (dropWhile P ys)" by (rule last_appendR)
  finally show ?thesis by simp
qed

lemma trim_fixed:
  assumes "s = [] \<or> (\<not> is_whitespace (hd s) \<and> \<not> is_whitespace (last s))"
  shows "trim s = s"
proof (cases "s = []")
  case True
  then show ?thesis by (simp add: trim_def)
next
  case False
  with assms have h: "\<not> is_whitespace (hd s)" and l: "\<not> is_whitespace (last s)" by simp_all
  from False h have 1: "dropWhile is_whitespace s = s"
    by (simp add: dropWhile_eq_self_iff)
  from False l have 2: "dropWhile is_whitespace (rev s) = rev s"
    by (simp add: dropWhile_eq_self_iff hd_rev)
  from 1 2 show ?thesis by (simp add: trim_def)
qed

lemma trim_ends:
  "trim s = [] \<or> (\<not> is_whitespace (hd (trim s)) \<and> \<not> is_whitespace (last (trim s)))"
proof (cases "trim s = []")
  case True
  then show ?thesis by simp
next
  case False
  let ?t = "dropWhile is_whitespace s"
  let ?r = "dropWhile is_whitespace (rev ?t)"
  from False have r: "?r \<noteq> []" by (simp add: trim_def)
  have t: "?t \<noteq> []"
  proof
    assume e: "?t = []"
    have "?r = dropWhile is_whitespace (rev [])" by (simp only: e)
    with r show False by simp
  qed
  from r have "\<not> is_whitespace (hd ?r)" by (rule hd_dropWhile)
  then have l: "\<not> is_whitespace (last (trim s))" by (simp add: trim_def last_rev)
  from r have "last ?r = last (rev ?t)" by (rule dropWhile_last)
  also have "\<dots> = hd ?t" by (simp add: last_rev)
  finally have "hd (trim s) = hd ?t" using r by (simp add: trim_def hd_rev)
  moreover from t have "\<not> is_whitespace (hd ?t)" by (rule hd_dropWhile)
  ultimately show ?thesis using l by simp
qed

lemma trim_trim: "trim (trim s) = trim s"
  by (rule trim_fixed) (rule trim_ends)

lemma trim_toLowerCase: "trim (toLowerCase s) = toLowerCase (trim s)"
proof -
  have c: "is_whitespace \<circ> lower_unit = is_whitespace"
    by (rule ext) (simp add: is_whitespace_lower_unit)
  have d: "\<And>xs. dropWhile is_whitespace (map lower_unit xs)
      = map lower_unit (dropWhile is_whitespace xs)"
    by (simp add: dropWhile_map c)
  have "trim (toLowerCase s)
      = rev (dropWhile is_whitespace (rev (map lower_unit (dropWhile is_whitespace s))))"
    by (simp add: trim_def toLowerCase_def d)
  also have "\<dots> = rev (dropWhile is_whitespace (map lower_unit (rev (dropWhile is_whitespace s))))"
    by (simp only: rev_map)
  also have "\<dots> = rev (map lower_unit (dropWhile is_whitespace (rev (dropWhile is_whitespace s))))"
    by (simp only: d)
  also have "\<dots> = toLowerCase (trim s)"
    by (simp only: trim_def toLowerCase_def rev_map)
  finally show ?thesis .
qed

lemma toLowerCase_idem: "toLowerCase (toLowerCase s) = toLowerCase s"
  by (simp add: toLowerCase_def lower_unit_idem)

lemma set_trim: "set (trim s) \<subseteq> set s"
proof -
  have "set (trim s) = set (dropWhile is_whitespace (rev (dropWhile is_whitespace s)))"
    by (simp add: trim_def)
  also have "\<dots> \<subseteq> set (rev (dropWhile is_whitespace s))" by (auto dest: set_dropWhileD)
  also have "\<dots> \<subseteq> set s" by (auto dest: set_dropWhileD)
  finally show ?thesis .
qed

lemma lower_unit_punct:
  assumes "c = 0x23 \<or> c = 0x25 \<or> c = 0x3F"
  shows "lower_unit u = c \<longleftrightarrow> u = c"
  using assms by (auto simp add: word_unat_eq_iff lower_unit_unat)


lemma split_first_absent: "sep \<notin> set s \<Longrightarrow> split_first sep s = s"
  by (auto simp add: split_first_def)

lemma set_split_first: "set (split_first sep s) \<subseteq> set s - {sep}"
  by (auto simp add: split_first_def dest: set_takeWhileD)

lemma decodeURIComponent_no_percent: "0x25 \<notin> set s \<Longrightarrow> decodeURIComponent s = Inr s"
  by (induction s) auto

lemma toLowerCase_punct: "set (toLowerCase s) \<inter> {0x23, 0x25, 0x3F} \<subseteq> set s"
proof
  fix c
  assume "c \<in> set (toLowerCase s) \<inter> {0x23, 0x25, 0x3F}"
  then obtain u where u: "u \<in> set s" "lower_unit u = c"
    and c: "c = 0x23 \<or> c = 0x25 \<or> c = 0x3F"
    by (auto simp add: toLowerCase_def)
  from lower_unit_punct [OF c, of u] u(2) have "u = c" by simp
  with u(1) show "c \<in> set s" by simp
qed

lemma trim_toLowerCase_trim: "trim (toLowerCase (trim s)) = toLowerCase (trim s)"
  by (simp add: trim_toLowerCase trim_trim)

lemma normalizeSlug_with_shape: "\<exists>y. normalizeSlug_with lower (Str x) = lower (trim y)"
  by (auto simp add: normalizeSlug_with_def Let_def split: sum.splits)

lemma normalizeSlug_with_fixed:
  assumes idem: "\<And>s. lower (lower s) = lower s"
    and ends: "\<And>s. trim (lower (trim s)) = lower (trim s)"
    and r: "r = lower (trim y)"
    and cut: "0x23 \<notin> set r" "0x3F \<notin> set r"
    and dec: "0x25 \<notin> set r \<or> decodeURIComponent r = Inl URIError"
  shows "normalizeSlug_with lower (Str r) = r"
proof -
  from cut have q: "split_first 0x23 (split_first 0x3F r) = r"
    by (simp add: split_first_absent)
  have fixed: "lower (trim r) = r"
    by (simp add: r ends idem)
  from dec show ?thesis
  proof
    assume "0x25 \<notin> set r"
    then have "decodeURIComponent r = Inr r" by (rule decodeURIComponent_no_percent)
    with q fixed show ?thesis by (simp add: normalizeSlug_with_def)
  next
    assume "decodeURIComponent r = Inl URIError"
    with q fixed show ?thesis by (simp add: normalizeSlug_with_def)
  qed
qed

lemma normalizeSlug_with_no_percent:
  assumes punct: "\<And>s. set (lower s) \<inter> {0x23, 0x25, 0x3F} \<subseteq> set s"
    and x: "0x25 \<notin> set x"
  shows "set (normalizeSlug_with lower (Str x)) \<inter> {0x23, 0x25, 0x3F} = {}"
proof -
  let ?n = "split_first 0x23 (split_first 0x3F x)"
  have sub: "set ?n \<subseteq> set x - {0x23, 0x3F}"
    using set_split_first [of "0x23" "split_first 0x3F x"] set_split_first [of "0x3F" x] by auto
  with x have free: "set ?n \<inter> {0x23, 0x25, 0x3F} = {}" by auto
  from sub x have "0x25 \<notin> set ?n" by auto
  then have "decodeURIComponent ?n = Inr ?n" by (rule decodeURIComponent_no_percent)
  then have eq: "normalizeSlug_with lower (Str x) = lower (trim ?n)"
    by (simp add: normalizeSlug_with_def)
  have "set (lower (trim ?n)) \<inter> {0x23, 0x25, 0x3F} \<subseteq> set (trim ?n)" by (rule punct)
  also have "\<dots> \<subseteq> set ?n" by (rule set_trim)
  finally have "set (lower (trim ?n)) \<inter> {0x23, 0x25, 0x3F} \<subseteq> set ?n \<inter> {0x23, 0x25, 0x3F}"
    by blast
  with free show ?thesis unfolding eq by blast
qed

text \<open>
  A second pass changes nothing at every string whose normalised form contains no \<open>?\<close> and
  no \<open>#\<close> and either contains no \<open>%\<close> or cannot be decoded, and every string that contains
  no \<open>%\<close> is such a string. This holds over every case mapping with three properties:
  applying it twice is applying it once, it leaves no white space at the ends of a trimmed
  string, and it does not produce \<open>#\<close>, \<open>%\<close> or \<open>?\<close> from other characters.
\<close>

lemma normalizeSlug_with_idempotent:
  fixes lower :: "jsstring \<Rightarrow> jsstring" and x :: jsstring
  defines "r \<equiv> normalizeSlug_with lower (Str x)"
  assumes idem: "\<And>s. lower (lower s) = lower s"
    and ends: "\<And>s. trim (lower (trim s)) = lower (trim s)"
    and punct: "\<And>s. set (lower s) \<inter> {0x23, 0x25, 0x3F} \<subseteq> set s"
  shows "(0x23 \<notin> set r \<and> 0x3F \<notin> set r
            \<and> (0x25 \<notin> set r \<or> decodeURIComponent r = Inl URIError) \<longrightarrow>
          normalizeSlug_with lower (Str r) = r)
     \<and> (0x25 \<notin> set x \<longrightarrow> normalizeSlug_with lower (Str r) = r)"
proof -
  obtain y where y: "r = lower (trim y)"
    unfolding r_def using normalizeSlug_with_shape by blast
  have a: "0x23 \<notin> set r \<and> 0x3F \<notin> set r
            \<and> (0x25 \<notin> set r \<or> decodeURIComponent r = Inl URIError) \<longrightarrow>
          normalizeSlug_with lower (Str r) = r"
    using normalizeSlug_with_fixed [of lower r y, OF idem ends y] by blast
  have b: "0x25 \<notin> set x \<longrightarrow> normalizeSlug_with lower (Str r) = r"
  proof
    assume "0x25 \<notin> set x"
    with punct have "set r \<inter> {0x23, 0x25, 0x3F} = {}"
      unfolding r_def by (rule normalizeSlug_with_no_percent)
    with a show "normalizeSlug_with lower (Str r) = r" by blast
  qed
  from a b show ?thesis by blast
qed

text \<open>
  Claim C2, as the code has it. \<open>normalizeSlug\<close> decodes percent escapes once, so a second
  pass can decode again what the first pass produced (\<open>%2541\<close> becomes \<open>%41\<close> and then
  \<open>a\<close>), or cut at a \<open>?\<close> or \<open>#\<close> that the first pass decoded. A second pass changes nothing
  at every string \<open>x\<close> whose normalised form contains no \<open>?\<close> and no \<open>#\<close> and either contains
  no \<open>%\<close> or cannot be decoded; every \<open>x\<close> that contains no \<open>%\<close> is such a string.
\<close>

theorem normalizeSlug_idempotent_without_escapes:
  fixes x :: jsstring
  defines "r \<equiv> normalizeSlug (Str x)"
  shows "(0x23 \<notin> set r \<and> 0x3F \<notin> set r
            \<and> (0x25 \<notin> set r \<or> decodeURIComponent r = Inl URIError) \<longrightarrow>
          normalizeSlug (Str r) = r)
     \<and> (0x25 \<notin> set x \<longrightarrow> normalizeSlug (Str r) = r)"
  unfolding r_def normalizeSlug_def
  by (rule normalizeSlug_with_idempotent
      [OF toLowerCase_idem trim_toLowerCase_trim toLowerCase_punct])

lemmas slug_eval =
  normalizeSlug_def normalizeSlug_with_def split_first_def ascii_def hex_value_def
  leading_ones_def continuation_def UTF16EncodeCodePoint_def trim_def toLowerCase_def
  is_whitespace_def lower_unit_def

lemma normalizeSlug_example:
  "normalizeSlug (Str (ascii '' Caf%C3%A9%20Mix?utm=1#top'')) = ascii ''caf'' @ [0xE9] @ ascii '' mix''"
  by (simp add: slug_eval)

lemma normalizeSlug_undecodable: "normalizeSlug (Str (ascii ''100% Cacau'')) = ascii ''100% cacau''"
  by (simp add: slug_eval)

lemma decodeURIComponent_undecodable: "decodeURIComponent (ascii ''100% cacau'') = Inl URIError"
  by (simp add: slug_eval)

theorem normalizeSlug_idempotent_without_escapes_witness:
  "normalizeSlug (Str (ascii '' Caf%C3%A9%20Mix?utm=1#top'')) = ascii ''caf'' @ [0xE9] @ ascii '' mix''
   \<and> normalizeSlug (Str (normalizeSlug (Str (ascii '' Caf%C3%A9%20Mix?utm=1#top''))))
       = normalizeSlug (Str (ascii '' Caf%C3%A9%20Mix?utm=1#top''))
   \<and> normalizeSlug (Str (ascii ''100% Cacau'')) = ascii ''100% cacau''
   \<and> decodeURIComponent (ascii ''100% cacau'') = Inl URIError
   \<and> normalizeSlug (Str (normalizeSlug (Str (ascii ''100% Cacau''))))
       = normalizeSlug (Str (ascii ''100% Cacau''))"
proof -
  let ?x = "ascii '' Caf%C3%A9%20Mix?utm=1#top''"
  let ?y = "ascii ''100% Cacau''"
  have x: "0x23 \<notin> set (normalizeSlug (Str ?x)) \<and> 0x3F \<notin> set (normalizeSlug (Str ?x))
      \<and> 0x25 \<notin> set (normalizeSlug (Str ?x))"
    by (simp add: normalizeSlug_example) (simp add: ascii_def)
  have y: "0x23 \<notin> set (normalizeSlug (Str ?y)) \<and> 0x3F \<notin> set (normalizeSlug (Str ?y))
      \<and> decodeURIComponent (normalizeSlug (Str ?y)) = Inl URIError"
    by (simp add: normalizeSlug_undecodable decodeURIComponent_undecodable) (simp add: ascii_def)
  from x normalizeSlug_idempotent_without_escapes [of ?x]
  have 1: "normalizeSlug (Str (normalizeSlug (Str ?x))) = normalizeSlug (Str ?x)"
    by blast
  from y normalizeSlug_idempotent_without_escapes [of ?y]
  have 2: "normalizeSlug (Str (normalizeSlug (Str ?y))) = normalizeSlug (Str ?y)"
    by blast
  from 1 2 normalizeSlug_example normalizeSlug_undecodable decodeURIComponent_undecodable
  show ?thesis by simp
qed

theorem normalizeSlug_idempotent_counterexample:
  "normalizeSlug (Str (ascii ''%2541'')) = ascii ''%41''
   \<and> normalizeSlug (Str (normalizeSlug (Str (ascii ''%2541'')))) = ascii ''a''
   \<and> normalizeSlug (Str (normalizeSlug (Str (ascii ''%2541''))))
       \<noteq> normalizeSlug (Str (ascii ''%2541''))"
proof -
  have 1: "normalizeSlug (Str (ascii ''%2541'')) = ascii ''%41''"
    by (simp add: slug_eval)
  have 2: "normalizeSlug (Str (ascii ''%41'')) = ascii ''a''"
    by (simp add: slug_eval)
  have 3: "ascii ''a'' \<noteq> ascii ''%41''" by (simp add: ascii_def)
  from 1 2 3 show ?thesis by simp
qed

section \<open>The catalogue normaliser (src/lib/db/products.ts)\<close>

subsection \<open>Data\<close>

text \<open>
  The rows of the tables \<open>products\<close> and \<open>product_variants\<close>. \<open>photo_url\<close> and \<open>category\<close>
  are nullable in the source's types; \<open>name\<close> and \<open>description\<close> are not, but the code
  guards them with \<open>?? ""\<close>, so the model lets them be \<open>null\<close> as well. Field names that
  other records already use carry the suffix \<open>_db\<close>, those of a variant row \<open>_dbv\<close>.
\<close>

record DbProduct =
  sku_db :: jsstring
  name_db :: "jsstring option"
  description_db :: "jsstring option"
  photo_url :: "jsstring option"
  category_db :: "jsstring option"

record DbVariant =
  id_dbv :: jsstring
  product_sku :: jsstring
  label_dbv :: jsstring
  sort_order :: int

text \<open>
  What a query of the database client resolves to: \<open>{ data, error }\<close>, with the message of
  the error when there is one.
\<close>

record 'row query_result =
  data :: "'row list option"
  error :: "jsstring option"

subsection \<open>\<open>slugify\<close>\<close>

text \<open>
  \<open>String.prototype.normalize("NFD")\<close> is a table of the platform; the functions below take
  it as the parameter \<open>nfd\<close>.
\<close>

definition combining_mark :: "code_unit \<Rightarrow> bool" where
  "combining_mark u \<longleftrightarrow> 0x300 \<le> u \<and> u \<le> 0x36F"

definition alphanumeric :: "code_unit \<Rightarrow> bool" where
  "alphanumeric u \<longleftrightarrow> (0x61 \<le> u \<and> u \<le> 0x7A) \<or> (0x30 \<le> u \<and> u \<le> 0x39)"

text \<open>
  \<open>.replace(/[^a-z0-9]+/g, "-")\<close>: every maximal run of other code units becomes one
  hyphen; \<open>in_run\<close> tells that the hyphen of the current run is already written.
\<close>

fun replace_runs :: "bool \<Rightarrow> jsstring \<Rightarrow> jsstring" where
  "replace_runs in_run [] = []"
| "replace_runs in_run (c # cs) =
     (if alphanumeric c then c # replace_runs False cs
      else if in_run then replace_runs True cs
      else 0x2D # replace_runs True cs)"

text \<open>\<open>.replace(/(^-+|-+$)/g, "")\<close>: the hyphens at both ends go.\<close>

definition strip_hyphens :: "jsstring \<Rightarrow> jsstring" where
  "strip_hyphens s = rev (dropWhile (\<lambda>u. u = 0x2D) (rev (dropWhile (\<lambda>u. u = 0x2D) s)))"

definition slugify :: "(jsstring \<Rightarrow> jsstring) \<Rightarrow> jsstring \<Rightarrow> jsstring" where
  "slugify nfd product_name =
     strip_hyphens (replace_runs False (trim (toLowerCase
       (filter (\<lambda>u. \<not> combining_mark u) (nfd product_name)))))"

subsection \<open>\<open>fetchCatalogProducts\<close>\<close>

definition normalizeCategory :: "unknown \<Rightarrow> jsstring" where
  "normalizeCategory input = (case input of NotString \<Rightarrow> [] | Str s \<Rightarrow> trim s)"

text \<open>\<open>a || b\<close> on strings that may be \<open>null\<close>: \<open>null\<close> and the empty string are falsy.\<close>

definition or_else :: "jsstring option \<Rightarrow> jsstring \<Rightarrow> jsstring" where
  "or_else a b = (case a of None \<Rightarrow> b | Some s \<Rightarrow> if s = [] then b else s)"

text \<open>Step 3: the variants grouped by \<open>product_sku\<close>, each group in the order of the rows.\<close>

definition index_by_sku :: "DbVariant list \<Rightarrow> (jsstring \<rightharpoonup> DbVariant list)" where
  "index_by_sku variant_rows =
     foldl (\<lambda>bySku v.
        case bySku (product_sku v) of
          Some arr \<Rightarrow> bySku(product_sku v \<mapsto> arr @ [v])
        | None \<Rightarrow> bySku(product_sku v \<mapsto> [v]))
       Map.empty variant_rows"

text \<open>Step 4: the function mapped over the products.\<close>

definition to_catalog_product ::
  "(jsstring \<Rightarrow> jsstring) \<Rightarrow> (jsstring \<rightharpoonup> DbVariant list) \<Rightarrow> DbProduct \<Rightarrow> CatalogProduct" where
  "to_catalog_product nfd bySku p =
     (let v = (case bySku (sku_db p) of None \<Rightarrow> [] | Some arr \<Rightarrow> arr);
          safeName = (case name_db p of None \<Rightarrow> [] | Some n \<Rightarrow> n);
          safeDescription = (case description_db p of None \<Rightarrow> [] | Some d \<Rightarrow> d);
          slug_value = or_else (Some (slugify nfd safeName)) (sku_db p);
          imageUrl = or_else (photo_url p) (ascii ''/placeholder.png'');
          category = normalizeCategory (case category_db p of None \<Rightarrow> NotString | Some c \<Rightarrow> Str c);
          mappedVariants =
            (if length v > 0
             then map (\<lambda>x. \<lparr>id_cv = id_dbv x, label_cv = label_dbv x, status_cv = ENCOMENDA\<rparr>) v
             else [\<lparr>id_cv = ascii ''default'', label_cv = ascii ''Padr'' @ [0xE3] @ ascii ''o'',
                    status_cv = ENCOMENDA\<rparr>])
      in \<lparr>id_cp = sku_db p, slug = slug_value, name_cp = safeName,
          description_cp = safeDescription, images = [imageUrl], status_cp = ENCOMENDA,
          category_cp = category, variants = mappedVariants, shopee_url = None\<rparr>)"

text \<open>
  The whole function, given what the two queries resolve to; \<open>Inl\<close> is the message of the
  \<open>Error\<close> it throws. The second query is only looked at when there are products.
\<close>

definition fetchCatalogProducts ::
  "(jsstring \<Rightarrow> jsstring) \<Rightarrow> DbProduct query_result \<Rightarrow> DbVariant query_result
     \<Rightarrow> jsstring + CatalogProduct list" where
  "fetchCatalogProducts nfd products_query variants_query =
     (case error products_query of
        Some message \<Rightarrow> Inl message
      | None \<Rightarrow>
          (let products = (case data products_query of None \<Rightarrow> [] | Some rows \<Rightarrow> rows)
           in if length products = 0 then Inr []
              else (case error variants_query of
                      Some message \<Rightarrow> Inl message
                    | None \<Rightarrow>
                        (let variant_rows = (case data variants_query of None \<Rightarrow> [] | Some rows \<Rightarrow> rows);
                             bySku = index_by_sku variant_rows
                         in Inr (map (to_catalog_product nfd bySku) products)))))"

text \<open>A row for the examples: product \<open>001\<close> with the given \<open>photo_url\<close>.\<close>

definition product_row :: "jsstring option \<Rightarrow> DbProduct" where
  "product_row url =
     \<lparr>sku_db = ascii ''001'', name_db = Some (ascii ''Mix''), description_db = Some [],
      photo_url = url, category_db = None\<rparr>"

section \<open>Facts about the catalogue normaliser\<close>

lemma images_to_catalog_product:
  "images (to_catalog_product nfd bySku p) =
     [case photo_url p of
        None \<Rightarrow> ascii ''/placeholder.png''
      | Some u \<Rightarrow> if u = [] then ascii ''/placeholder.png'' else u]"
  by (simp add: to_catalog_product_def or_else_def Let_def split: option.splits)

text \<open>
  Claim C3, as the code has it. The images of a normalised product are the single
  \<open>photo_url\<close> when it is neither \<open>null\<close> nor the empty string, and the single local
  placeholder \<open>/placeholder.png\<close> otherwise. The code does not trim: a \<open>photo_url\<close> of
  white space only is kept as the image. Whenever neither query fails,
  \<open>fetchCatalogProducts\<close> returns the products with these images, in the order of the rows.
\<close>

theorem images_photo_url_or_placeholder:
  "images (to_catalog_product nfd bySku p) =
     [case photo_url p of
        None \<Rightarrow> ascii ''/placeholder.png''
      | Some u \<Rightarrow> if u = [] then ascii ''/placeholder.png'' else u]
   \<and> (error products_query = None \<and> error variants_query = None \<longrightarrow>
        (\<exists>cs. fetchCatalogProducts nfd products_query variants_query = Inr cs
           \<and> map images cs =
               map (\<lambda>p. [case photo_url p of
                            None \<Rightarrow> ascii ''/placeholder.png''
                          | Some u \<Rightarrow> if u = [] then ascii ''/placeholder.png'' else u])
                 (case data products_query of None \<Rightarrow> [] | Some rows \<Rightarrow> rows)))"
  by (auto simp add: images_to_catalog_product fetchCatalogProducts_def Let_def
      split: option.splits)

theorem images_photo_url_or_placeholder_witness:
  "error \<lparr>data = Some [product_row (Some (ascii ''https://cdn/x.png'')),
                        product_row None, product_row (Some [])],
          error = None\<rparr> = None
   \<and> (\<exists>cs. fetchCatalogProducts id
          \<lparr>data = Some [product_row (Some (ascii ''https://cdn/x.png'')),
                        product_row None, product_row (Some [])],
           error = None\<rparr>
          \<lparr>data = None, error = None\<rparr> = Inr cs
        \<and> map images cs
            = [[ascii ''https://cdn/x.png''], [ascii ''/placeholder.png''], [ascii ''/placeholder.png'']])"
  using images_photo_url_or_placeholder
    [of id Map.empty "product_row None"
      "\<lparr>data = Some [product_row (Some (ascii ''https://cdn/x.png'')),
                        product_row None, product_row (Some [])],
           error = None\<rparr>"
      "\<lparr>data = None, error = None\<rparr>"]
  by (simp add: product_row_def ascii_def)

theorem images_trimmed_counterexample:
  "images (to_catalog_product id Map.empty (product_row (Some (ascii ''   ''))))
     = [ascii ''   '']
   \<and> trim (ascii ''   '') = []
   \<and> images (to_catalog_product id Map.empty (product_row (Some (ascii ''   ''))))
     \<noteq> [ascii ''/placeholder'']
   \<and> images (to_catalog_product id Map.empty (product_row (Some (ascii ''   ''))))
     \<noteq> [ascii ''/placeholder.png'']"
  by (simp add: images_to_catalog_product product_row_def ascii_def trim_def
      is_whitespace_def)

section \<open>The checkout message (src/app/carrinho/page.tsx)\<close>

subsection \<open>Platform functions\<close>





subsection \<open>The compatibility layer\<close>

text \<open>
  \<open>CartItemCompat\<close> is a cart line in which every field may be missing, with the field names
  of older carts beside the current ones. \<open>asCompat\<close> is a type cast: a \<open>CartItem\<close> seen this
  way has its own fields and none of the old ones. The current fields carry the suffix \<open>_c\<close>
  here.
\<close>

record CartItemCompat =
  sku_c :: "jsstring option"
  name_c :: "jsstring option"
  variantLabel_c :: "jsstring option"
  qty_c :: "int option"
  productSlug :: "jsstring option"
  productName :: "jsstring option"
  variantId :: "jsstring option"
  quantity :: "int option"

definition asCompat :: "CartItem \<Rightarrow> CartItemCompat" where
  "asCompat i =
     \<lparr>sku_c = Some (sku i), name_c = Some (name i), variantLabel_c = variantLabel i,
      qty_c = Some (qty i), productSlug = None, productName = None, variantId = None,
      quantity = None\<rparr>"

text \<open>\<open>a ?? b\<close>: the left operand unless it is missing.\<close>

definition nullish :: "'a option \<Rightarrow> 'a \<Rightarrow> 'a" where
  "nullish a b = (case a of None \<Rightarrow> b | Some v \<Rightarrow> v)"


definition getSku :: "CartItem \<Rightarrow> jsstring" where
  "getSku i = (let c = asCompat i in nullish (sku_c c) (nullish (productSlug c) []))"



subsection \<open>\<open>buildMessage\<close>\<close>

datatype CityChoice = NoCity | RIO_PRETO | OUTRA










section \<open>Facts about the checkout message\<close>










end
